theory Spec2Isabelle
  imports Main
begin

section \<open>The CSS selector builder of 05-objects-tasks.js\<close>

subsection \<open>Errors and fragment kinds\<close>

text \<open>
  The source throws \<^verbatim>\<open>new Error(message)\<close> with one of two messages. A call on a
  value that is not a builder object is JavaScript's \<^verbatim>\<open>TypeError\<close>.
\<close>

datatype error = Error string | TypeError

definition DuplicateFragmentError :: error where
  "DuplicateFragmentError =
     Error ''Element, id and pseudo-element should not occur more then one time inside the selector''"

definition OutOfOrderError :: error where
  "OutOfOrderError =
     Error ''Selector parts should be arranged in the following order: element, id, class, attribute, pseudo-class, pseudo-element''"

text \<open>The keys of \<^verbatim>\<open>TYPES_OF_PARTS\<close>, and the number the object gives each key.\<close>

datatype part_type = ELEMENT | ID | CLASS | ATTR | PSEUDO_CLASS | PSEUDO_ELEMENT

fun TYPES_OF_PARTS :: "part_type \<Rightarrow> nat" where
  "TYPES_OF_PARTS ELEMENT = 0"
| "TYPES_OF_PARTS ID = 1"
| "TYPES_OF_PARTS CLASS = 2"
| "TYPES_OF_PARTS ATTR = 3"
| "TYPES_OF_PARTS PSEUDO_CLASS = 4"
| "TYPES_OF_PARTS PSEUDO_ELEMENT = 5"

subsection \<open>The class MyBuilder\<close>

text \<open>
  An object of the class has the two fields the constructor sets. The counts are
  JavaScript numbers that start at 0 and only ever grow by 1, modelled as naturals.
\<close>

record MyBuilder =
  line :: string
  partsPresence :: "nat list"

text \<open>
  A method takes the object it is called on and returns what the call gives (an error
  thrown, or a value returned) together with the object as the call leaves it, so that the
  state after a throw is part of the model.
\<close>

type_synonym 'a meth = "MyBuilder \<Rightarrow> (error + 'a) \<times> MyBuilder"

text \<open>
  \<^verbatim>\<open>!this.partsPresence.slice(newPartType + 1).filter((item) => item > 0).length\<close>:
  the negation of a number is true exactly for 0.
\<close>

definition isCorrectOrderForNewPart :: "MyBuilder \<Rightarrow> nat \<Rightarrow> bool" where
  "isCorrectOrderForNewPart this newPartType =
     (length (filter (\<lambda>item. item > 0) (drop (newPartType + 1) (partsPresence this))) = 0)"

definition addNewPartInLine :: "string \<Rightarrow> part_type \<Rightarrow> unit meth" where
  "addNewPartInLine str typeOfPart this =
     (if \<not> isCorrectOrderForNewPart this (TYPES_OF_PARTS typeOfPart)
      then (Inl OutOfOrderError, this)
      else
        let this1 = this\<lparr>partsPresence :=
                     (partsPresence this)[TYPES_OF_PARTS typeOfPart :=
                        partsPresence this ! TYPES_OF_PARTS typeOfPart + 1]\<rparr>
        in (Inr (),
            case typeOfPart of
              ELEMENT \<Rightarrow> this1\<lparr>line := line this1 @ str\<rparr>
            | ID \<Rightarrow> this1\<lparr>line := line this1 @ ''#'' @ str\<rparr>
            | CLASS \<Rightarrow> this1\<lparr>line := line this1 @ ''.'' @ str\<rparr>
            | PSEUDO_CLASS \<Rightarrow> this1\<lparr>line := line this1 @ '':'' @ str\<rparr>
            | PSEUDO_ELEMENT \<Rightarrow> this1\<lparr>line := line this1 @ ''::'' @ str\<rparr>
            | ATTR \<Rightarrow> this1\<lparr>line := line this1 @ ''['' @ str @ '']''\<rparr>))"

text \<open>
  The constructor: both fields are set, then the first part is added. The result is the
  new object's state (and the error, should \<^verbatim>\<open>addNewPartInLine\<close> throw).
\<close>

definition constructor :: "string \<Rightarrow> part_type \<Rightarrow> (error + unit) \<times> MyBuilder" where
  "constructor initStr typeOfPart =
     addNewPartInLine initStr typeOfPart \<lparr>line = '''', partsPresence = replicate 6 0\<rparr>"

text \<open>
  The six part methods. Each returns \<^verbatim>\<open>this\<close>: the object the result pair carries.
  A number is truthy exactly when it is not 0.
\<close>

definition element :: "string \<Rightarrow> unit meth" where
  "element str this =
     (if partsPresence this ! TYPES_OF_PARTS ELEMENT \<noteq> 0
      then (Inl DuplicateFragmentError, this)
      else addNewPartInLine str ELEMENT this)"

definition class_m :: "string \<Rightarrow> unit meth" where
  "class_m str this = addNewPartInLine str CLASS this"

definition id_m :: "string \<Rightarrow> unit meth" where
  "id_m str this =
     (if partsPresence this ! TYPES_OF_PARTS ID \<noteq> 0
      then (Inl DuplicateFragmentError, this)
      else addNewPartInLine str ID this)"

definition attr :: "string \<Rightarrow> unit meth" where
  "attr str this = addNewPartInLine str ATTR this"

definition pseudoClass :: "string \<Rightarrow> unit meth" where
  "pseudoClass str this = addNewPartInLine str PSEUDO_CLASS this"

definition pseudoElement :: "string \<Rightarrow> unit meth" where
  "pseudoElement str this =
     (if partsPresence this ! TYPES_OF_PARTS PSEUDO_ELEMENT \<noteq> 0
      then (Inl DuplicateFragmentError, this)
      else addNewPartInLine str PSEUDO_ELEMENT this)"

definition combineTail :: "string \<Rightarrow> string \<Rightarrow> unit meth" where
  "combineTail combinator lineStr this =
     (Inr (), this\<lparr>line := line this @ '' '' @ combinator @ '' '' @ lineStr\<rparr>)"

definition stringify :: "string meth" where
  "stringify this = (Inr (line this), this)"

subsection \<open>Objects in a heap\<close>

text \<open>
  Builders are objects: two variables may name the same one, and \<^verbatim>\<open>combine\<close> takes
  two of them. The heap is the list of the objects allocated so far; a reference is an
  index into it. Calling a method through a reference that names no builder is a
  \<^verbatim>\<open>TypeError\<close>.
\<close>

type_synonym ref = nat
type_synonym heap = "MyBuilder list"

definition invoke :: "ref \<Rightarrow> 'a meth \<Rightarrow> heap \<Rightarrow> (error + 'a) \<times> heap" where
  "invoke r m h =
     (if r < length h
      then (case m (h ! r) of (res, this) \<Rightarrow> (res, h[r := this]))
      else (Inl TypeError, h))"

text \<open>A method that ends in \<^verbatim>\<open>return this\<close> gives back the reference it was called on.\<close>

definition invoke_this :: "ref \<Rightarrow> unit meth \<Rightarrow> heap \<Rightarrow> (error + ref) \<times> heap" where
  "invoke_this r m h =
     (case invoke r m h of
        (Inl e, h') \<Rightarrow> (Inl e, h')
      | (Inr _, h') \<Rightarrow> (Inr r, h'))"

text \<open>
  \<^verbatim>\<open>new MyBuilder(initStr, typeOfPart)\<close>: a fresh object at the end of the heap. When
  the constructor throws, no reference to the object exists.
\<close>

definition new_MyBuilder :: "string \<Rightarrow> part_type \<Rightarrow> heap \<Rightarrow> (error + ref) \<times> heap" where
  "new_MyBuilder initStr typeOfPart h =
     (case constructor initStr typeOfPart of
        (Inl e, _) \<Rightarrow> (Inl e, h)
      | (Inr _, this) \<Rightarrow> (Inr (length h), h @ [this]))"

text \<open>Sequencing of calls: an error thrown by the first ends the chain.\<close>

fun chain :: "(error + 'a) \<times> heap \<Rightarrow> ('a \<Rightarrow> heap \<Rightarrow> (error + 'b) \<times> heap) \<Rightarrow> (error + 'b) \<times> heap" where
  "chain (Inl e, h) f = (Inl e, h)"
| "chain (Inr a, h) f = f a h"

subsection \<open>The facade cssSelectorBuilder\<close>

definition cssSelectorBuilder_element :: "string \<Rightarrow> heap \<Rightarrow> (error + ref) \<times> heap" where
  "cssSelectorBuilder_element val h = new_MyBuilder val ELEMENT h"

definition cssSelectorBuilder_id :: "string \<Rightarrow> heap \<Rightarrow> (error + ref) \<times> heap" where
  "cssSelectorBuilder_id val h = new_MyBuilder val ID h"

definition cssSelectorBuilder_class :: "string \<Rightarrow> heap \<Rightarrow> (error + ref) \<times> heap" where
  "cssSelectorBuilder_class val h = new_MyBuilder val CLASS h"

definition cssSelectorBuilder_attr :: "string \<Rightarrow> heap \<Rightarrow> (error + ref) \<times> heap" where
  "cssSelectorBuilder_attr val h = new_MyBuilder val ATTR h"

definition cssSelectorBuilder_pseudoClass :: "string \<Rightarrow> heap \<Rightarrow> (error + ref) \<times> heap" where
  "cssSelectorBuilder_pseudoClass val h = new_MyBuilder val PSEUDO_CLASS h"

definition cssSelectorBuilder_pseudoElement :: "string \<Rightarrow> heap \<Rightarrow> (error + ref) \<times> heap" where
  "cssSelectorBuilder_pseudoElement val h = new_MyBuilder val PSEUDO_ELEMENT h"

text \<open>
  \<^verbatim>\<open>selector1.combineTail(combinator, selector2.stringify())\<close>: the method of
  \<^verbatim>\<open>selector1\<close> is looked up, the argument is evaluated, then the call is made.
\<close>

definition cssSelectorBuilder_combine :: "ref \<Rightarrow> string \<Rightarrow> ref \<Rightarrow> heap \<Rightarrow> (error + ref) \<times> heap" where
  "cssSelectorBuilder_combine selector1 combinator selector2 h =
     (if \<not> selector1 < length h then (Inl TypeError, h)
      else chain (invoke selector2 stringify h)
             (\<lambda>lineStr. invoke_this selector1 (combineTail combinator lineStr)))"

subsection \<open>Calls by kind, and sequences of calls on one object\<close>

text \<open>The part method of each kind.\<close>

fun appendPart :: "part_type \<Rightarrow> string \<Rightarrow> unit meth" where
  "appendPart ELEMENT str = element str"
| "appendPart ID str = id_m str"
| "appendPart CLASS str = class_m str"
| "appendPart ATTR str = attr str"
| "appendPart PSEUDO_CLASS str = pseudoClass str"
| "appendPart PSEUDO_ELEMENT str = pseudoElement str"

text \<open>
  A chain \<^verbatim>\<open>b.k1(s1).k2(s2)...\<close> on one object: the first call that throws ends
  it, and the object stays as that call left it.
\<close>

fun appendAll :: "(part_type \<times> string) list \<Rightarrow> unit meth" where
  "appendAll [] this = (Inr (), this)"
| "appendAll ((k, str) # rest) this =
     (case appendPart k str this of
        (Inl e, this') \<Rightarrow> (Inl e, this')
      | (Inr _, this') \<Rightarrow> appendAll rest this')"

text \<open>
  What the spec calls a fragment's rendering: the element text verbatim, and the
  prefixes \<^verbatim>\<open>#\<close>, \<^verbatim>\<open>.\<close>, \<^verbatim>\<open>[ ]\<close>, \<^verbatim>\<open>:\<close>, \<^verbatim>\<open>::\<close> for the other kinds.
\<close>

fun spec_fragment :: "part_type \<times> string \<Rightarrow> string" where
  "spec_fragment (ELEMENT, text) = text"
| "spec_fragment (ID, text) = ''#'' @ text"
| "spec_fragment (CLASS, text) = ''.'' @ text"
| "spec_fragment (ATTR, text) = ''['' @ text @ '']''"
| "spec_fragment (PSEUDO_CLASS, text) = '':'' @ text"
| "spec_fragment (PSEUDO_ELEMENT, text) = ''::'' @ text"

text \<open>The kinds that may occur once only, by the methods that check for a repeat.\<close>

fun single_occurrence :: "part_type \<Rightarrow> bool" where
  "single_occurrence ELEMENT = True"
| "single_occurrence ID = True"
| "single_occurrence PSEUDO_ELEMENT = True"
| "single_occurrence _ = False"

subsection \<open>Example objects\<close>

definition example_class_a :: MyBuilder where
  "example_class_a = snd (constructor ''a'' CLASS)"

definition example_a_b :: MyBuilder where
  "example_a_b = snd (appendAll [(ID, ''b'')] (snd (constructor ''a'' ELEMENT)))"

definition example_a_b_c :: MyBuilder where
  "example_a_b_c =
     snd (appendAll [(ID, ''b''), (PSEUDO_ELEMENT, ''c'')] (snd (constructor ''a'' ELEMENT)))"

definition example_div :: MyBuilder where
  "example_div = snd (constructor ''div'' ELEMENT)"

section \<open>The JSON functions of 05-objects-tasks.js\<close>
















text \<open>
  Modelled from the spec: \<^verbatim>\<open>JSON.parse\<close>, the parsing half of the spec's \<open>deserialize\<close>,
  is a built-in of the runtime and no code of the repository. It reads one JSON value
  with optional white space around the tokens and fails on any other text. The parser
  takes a number of steps it may use; \<open>JSON_parse\<close> gives it more than the length of
  the text.
\<close>

definition is_ws :: "char \<Rightarrow> bool" where
  "is_ws c = (c = CHR '' '' \<or> c = CHR 0x09 \<or> c = CHR 0x0A \<or> c = CHR 0x0D)"

definition skip_ws :: "string \<Rightarrow> string" where
  "skip_ws cs = dropWhile is_ws cs"



















subsection \<open>Notions for the proofs about the JSON functions\<close>



definition value_start :: "string \<Rightarrow> bool" where
  "value_start t = (t \<noteq> [] \<and> \<not> is_ws (hd t) \<and> hd t \<noteq> CHR '']'' \<and> hd t \<noteq> CHR ''}'')"






section \<open>Basic facts\<close>

subsection \<open>Errors and kinds\<close>

lemma errors_distinct: "DuplicateFragmentError \<noteq> OutOfOrderError"
  by (simp add: DuplicateFragmentError_def OutOfOrderError_def)

lemma TYPES_OF_PARTS_less_6: "TYPES_OF_PARTS k < 6"
  by (cases k) simp_all

lemma index_is_kind: "j < 6 \<Longrightarrow> \<exists>k. TYPES_OF_PARTS k = j"
proof -
  assume "j < 6"
  then consider "j = 0" | "j = 1" | "j = 2" | "j = 3" | "j = 4" | "j = 5" by linarith
  then show ?thesis
  proof cases
    case 1 then show ?thesis using TYPES_OF_PARTS.simps(1) by metis
  next
    case 2 then show ?thesis using TYPES_OF_PARTS.simps(2) by metis
  next
    case 3 then show ?thesis using TYPES_OF_PARTS.simps(3) by metis
  next
    case 4 then show ?thesis using TYPES_OF_PARTS.simps(4) by metis
  next
    case 5 then show ?thesis using TYPES_OF_PARTS.simps(5) by metis
  next
    case 6 then show ?thesis using TYPES_OF_PARTS.simps(6) by metis
  qed
qed


subsection \<open>The order check\<close>

lemma order_check_iff:
  "isCorrectOrderForNewPart b k \<longleftrightarrow>
     (\<forall>j. k < j \<and> j < length (partsPresence b) \<longrightarrow> partsPresence b ! j = 0)"
proof -
  have "isCorrectOrderForNewPart b k \<longleftrightarrow> (\<forall>x \<in> set (drop (k + 1) (partsPresence b)). x = 0)"
    by (auto simp: isCorrectOrderForNewPart_def filter_empty_conv)
  also have "\<dots> \<longleftrightarrow> (\<forall>j. k < j \<and> j < length (partsPresence b) \<longrightarrow> partsPresence b ! j = 0)"
  proof
    assume h: "\<forall>x \<in> set (drop (k + 1) (partsPresence b)). x = 0"
    show "\<forall>j. k < j \<and> j < length (partsPresence b) \<longrightarrow> partsPresence b ! j = 0"
    proof (intro allI impI)
      fix j assume j: "k < j \<and> j < length (partsPresence b)"
      then have "partsPresence b ! j = drop (k + 1) (partsPresence b) ! (j - (k + 1))"
        by simp
      moreover have "j - (k + 1) < length (drop (k + 1) (partsPresence b))"
        using j by (simp add: diff_less_mono)
      ultimately show "partsPresence b ! j = 0"
        using h nth_mem by metis
    qed
  next
    assume h: "\<forall>j. k < j \<and> j < length (partsPresence b) \<longrightarrow> partsPresence b ! j = 0"
    show "\<forall>x \<in> set (drop (k + 1) (partsPresence b)). x = 0"
    proof
      fix x assume "x \<in> set (drop (k + 1) (partsPresence b))"
      then obtain i where i: "i < length (drop (k + 1) (partsPresence b))"
        and x: "x = drop (k + 1) (partsPresence b) ! i"
        by (auto simp: in_set_conv_nth)
      from i have "k + 1 + i < length (partsPresence b)" by simp
      with h x show "x = 0" by simp
    qed
  qed
  finally show ?thesis .
qed

lemma order_check_kinds:
  assumes "length (partsPresence b) = 6"
  shows "isCorrectOrderForNewPart b (TYPES_OF_PARTS k) \<longleftrightarrow>
     (\<forall>k'. TYPES_OF_PARTS k < TYPES_OF_PARTS k' \<longrightarrow> partsPresence b ! TYPES_OF_PARTS k' = 0)"
  unfolding order_check_iff assms
  using index_is_kind TYPES_OF_PARTS_less_6 by metis

lemma order_after_earlier:
  assumes "isCorrectOrderForNewPart b k" and "partsPresence b' = (partsPresence b)[i := v]"
      and "i \<le> k'" and "k \<le> k'"
  shows "isCorrectOrderForNewPart b' k'"
proof -
  have "\<forall>j. k' < j \<and> j < length (partsPresence b') \<longrightarrow> partsPresence b' ! j = 0"
  proof (intro allI impI)
    fix j assume j: "k' < j \<and> j < length (partsPresence b')"
    then have "j \<noteq> i" and "k < j" and "j < length (partsPresence b)"
      using assms(2,3,4) by simp_all
    then show "partsPresence b' ! j = 0"
      using assms(1) by (simp add: assms(2) order_check_iff)
  qed
  then show ?thesis by (simp only: order_check_iff)
qed

lemma order_after_later:
  assumes "partsPresence b' = (partsPresence b)[i := v]"
      and "k < i" and "i < length (partsPresence b)" and "v \<noteq> 0"
  shows "\<not> isCorrectOrderForNewPart b' k"
proof
  assume "isCorrectOrderForNewPart b' k"
  then have "\<forall>j. k < j \<and> j < length (partsPresence b') \<longrightarrow> partsPresence b' ! j = 0"
    by (simp only: order_check_iff)
  then have "k < i \<and> i < length (partsPresence b') \<longrightarrow> partsPresence b' ! i = 0"
    by (rule spec)
  moreover have "k < i \<and> i < length (partsPresence b') \<and> partsPresence b' ! i \<noteq> 0"
    using assms(2,3,4) by (simp add: assms(1))
  ultimately show False by simp
qed


subsection \<open>What a part method does\<close>

lemma addNewPartInLine_fail:
  "\<not> isCorrectOrderForNewPart b (TYPES_OF_PARTS k) \<Longrightarrow> addNewPartInLine s k b = (Inl OutOfOrderError, b)"
  by (simp add: addNewPartInLine_def)

lemma addNewPartInLine_ok:
  "isCorrectOrderForNewPart b (TYPES_OF_PARTS k) \<Longrightarrow>
   addNewPartInLine s k b =
     (Inr (), \<lparr>line = line b @ spec_fragment (k, s),
              partsPresence = (partsPresence b)[TYPES_OF_PARTS k := partsPresence b ! TYPES_OF_PARTS k + 1]\<rparr>)"
  by (cases k) (simp_all add: addNewPartInLine_def Let_def)

lemma appendPart_cases:
  "appendPart k s b =
     (if single_occurrence k \<and> partsPresence b ! TYPES_OF_PARTS k \<noteq> 0 then (Inl DuplicateFragmentError, b)
      else addNewPartInLine s k b)"
  by (cases k) (simp_all add: element_def id_m_def class_m_def attr_def pseudoClass_def pseudoElement_def)

lemma appendPart_ok:
  assumes "\<not> (single_occurrence K \<and> partsPresence b ! TYPES_OF_PARTS K \<noteq> 0)"
      and "isCorrectOrderForNewPart b (TYPES_OF_PARTS K)"
  shows "appendPart K s b =
     (Inr (), \<lparr>line = line b @ spec_fragment (K, s),
              partsPresence = (partsPresence b)[TYPES_OF_PARTS K := partsPresence b ! TYPES_OF_PARTS K + 1]\<rparr>)"
  using assms by (simp add: appendPart_cases addNewPartInLine_ok)

lemma appendPart_order_fail:
  assumes "\<not> (single_occurrence K \<and> partsPresence b ! TYPES_OF_PARTS K \<noteq> 0)"
      and "\<not> isCorrectOrderForNewPart b (TYPES_OF_PARTS K)"
  shows "appendPart K s b = (Inl OutOfOrderError, b)"
  using assms by (auto simp: appendPart_cases addNewPartInLine_fail)

lemma appendPart_success:
  assumes "fst (appendPart K s b) = Inr u"
  shows "\<not> (single_occurrence K \<and> partsPresence b ! TYPES_OF_PARTS K \<noteq> 0)
       \<and> isCorrectOrderForNewPart b (TYPES_OF_PARTS K)"
  using assms by (auto simp: appendPart_cases addNewPartInLine_def split: if_splits)

lemma appendPart_error:
  "fst (appendPart K str b) = Inl e \<Longrightarrow>
     snd (appendPart K str b) = b \<and> (e = DuplicateFragmentError \<or> e = OutOfOrderError)"
  by (auto simp: appendPart_cases addNewPartInLine_def Let_def split: if_splits)

lemma appendPart_depends_on_counts:
  assumes "partsPresence b1 = partsPresence b2"
  shows "fst (appendPart K s b1) = fst (appendPart K s b2)
       \<and> partsPresence (snd (appendPart K s b1)) = partsPresence (snd (appendPart K s b2))"
proof -
  have o: "isCorrectOrderForNewPart b1 k = isCorrectOrderForNewPart b2 k" for k
    by (simp add: isCorrectOrderForNewPart_def assms)
  show ?thesis
    by (cases "isCorrectOrderForNewPart b2 (TYPES_OF_PARTS K)")
       (simp_all add: appendPart_cases addNewPartInLine_ok addNewPartInLine_fail o assms)
qed

lemma constructor_eq:
  "constructor str K =
     (Inr (), \<lparr>line = spec_fragment (K, str),
              partsPresence = (replicate 6 0)[TYPES_OF_PARTS K := 1]\<rparr>)"
proof -
  have "isCorrectOrderForNewPart \<lparr>line = '''', partsPresence = replicate 6 0\<rparr> (TYPES_OF_PARTS K)"
    by (simp add: order_check_iff)
  then show ?thesis
    using TYPES_OF_PARTS_less_6 [of K] by (simp add: constructor_def addNewPartInLine_ok)
qed

lemma constructor_appendPart:
  "constructor s K = appendPart K s \<lparr>line = '''', partsPresence = replicate 6 0\<rparr>"
  using TYPES_OF_PARTS_less_6 [of K] by (simp add: constructor_def appendPart_cases)

lemma blank_wf:
  "length (partsPresence \<lparr>line = '''', partsPresence = replicate 6 0\<rparr>) = 6"
  by simp


subsection \<open>The array of counts keeps its six entries\<close>

lemma constructor_length:
  "length (partsPresence (snd (constructor s K))) = 6"
  by (simp add: constructor_eq)

lemma appendPart_length:
  "length (partsPresence (snd (appendPart K str b))) = length (partsPresence b)"
  by (cases "isCorrectOrderForNewPart b (TYPES_OF_PARTS K)")
     (simp_all add: appendPart_cases addNewPartInLine_fail addNewPartInLine_ok)

lemma combineTail_counts:
  "partsPresence (snd (combineTail c t b)) = partsPresence b"
  by (simp add: combineTail_def)


subsection \<open>Sequences of calls\<close>

lemma appendAll_two:
  assumes "fst (appendPart K1 s1 b) = Inr ()"
  shows "fst (appendAll [(K1, s1), (K2, s2)] b) = fst (appendPart K2 s2 (snd (appendPart K1 s1 b)))"
proof -
  obtain b1 where e1: "appendPart K1 s1 b = (Inr (), b1)"
    using assms by (cases "appendPart K1 s1 b") simp
  obtain r2 b2 where e2: "appendPart K2 s2 b1 = (r2, b2)"
    by (cases "appendPart K2 s2 b1")
  show ?thesis
    by (cases r2) (simp_all add: e1 e2)
qed

lemma appendAll_line:
  "fst (appendAll parts b) = Inr () \<Longrightarrow>
   line (snd (appendAll parts b)) = line b @ concat (map spec_fragment parts)"
proof (induction parts arbitrary: b)
  case Nil
  show ?case by simp
next
  case (Cons p parts)
  obtain k s where p: "p = (k, s)" by (cases p)
  obtain r b' where e: "appendPart k s b = (r, b')" by (cases "appendPart k s b")
  from Cons.prems p e have r: "r = Inr ()" by (cases r) simp_all
  then have "fst (appendPart k s b) = Inr ()" using e by simp
  from appendPart_ok [of k b s] appendPart_success [OF this] e
  have l: "line b' = line b @ spec_fragment (k, s)" by auto
  from Cons.prems p e r have "fst (appendAll parts b') = Inr ()" by simp
  from Cons.IH [OF this] p e r l show ?case by simp
qed

lemma later_then_earlier:
  assumes wf: "length (partsPresence b) = 6"
      and lt: "TYPES_OF_PARTS B < TYPES_OF_PARTS A"
      and nA: "\<not> (single_occurrence A \<and> partsPresence b ! TYPES_OF_PARTS A \<noteq> 0)"
      and nB: "\<not> (single_occurrence B \<and> partsPresence b ! TYPES_OF_PARTS B \<noteq> 0)"
  shows "fst (appendAll [(A, x), (B, y)] b) = Inl OutOfOrderError"
proof (cases "isCorrectOrderForNewPart b (TYPES_OF_PARTS A)")
  case False
  with nA have "appendPart A x b = (Inl OutOfOrderError, b)"
    by (rule appendPart_order_fail)
  then show ?thesis by simp
next
  case True
  define b' where "b' = snd (appendPart A x b)"
  have step: "appendPart A x b = (Inr (), b')"
    and pp: "partsPresence b' = (partsPresence b)[TYPES_OF_PARTS A := partsPresence b ! TYPES_OF_PARTS A + 1]"
    using appendPart_ok [OF nA True, of x] by (simp_all add: b'_def)
  have len: "TYPES_OF_PARTS A < length (partsPresence b)"
    using wf TYPES_OF_PARTS_less_6 [of A] by simp
  have pos: "partsPresence b ! TYPES_OF_PARTS A + 1 \<noteq> 0"
    by simp
  have bad: "\<not> isCorrectOrderForNewPart b' (TYPES_OF_PARTS B)"
    by (rule order_after_later [OF pp lt len pos])
  have "partsPresence b' ! TYPES_OF_PARTS B = partsPresence b ! TYPES_OF_PARTS B"
    using pp lt by simp
  with nB have "\<not> (single_occurrence B \<and> partsPresence b' ! TYPES_OF_PARTS B \<noteq> 0)"
    by simp
  then have "appendPart B y b' = (Inl OutOfOrderError, b')"
    using bad by (rule appendPart_order_fail)
  with step show ?thesis by simp
qed

lemma earlier_then_later:
  assumes wf: "length (partsPresence b) = 6"
      and lt: "TYPES_OF_PARTS B < TYPES_OF_PARTS A"
      and ok: "fst (appendPart B x b) = Inr ()"
  shows "fst (appendAll [(B, x), (A, y)] b) = Inr ()"
proof -
  from appendPart_success [OF ok]
  have nB: "\<not> (single_occurrence B \<and> partsPresence b ! TYPES_OF_PARTS B \<noteq> 0)"
    and oB: "isCorrectOrderForNewPart b (TYPES_OF_PARTS B)"
    by simp_all
  define b' where "b' = snd (appendPart B x b)"
  have step: "appendPart B x b = (Inr (), b')"
    and pp: "partsPresence b' = (partsPresence b)[TYPES_OF_PARTS B := partsPresence b ! TYPES_OF_PARTS B + 1]"
    using appendPart_ok [OF nB oB, of x] by (simp_all add: b'_def)
  have "TYPES_OF_PARTS A < length (partsPresence b)"
    using wf TYPES_OF_PARTS_less_6 [of A] by simp
  with oB lt have "partsPresence b ! TYPES_OF_PARTS A = 0"
    by (simp add: order_check_iff)
  with pp lt have nA: "\<not> (single_occurrence A \<and> partsPresence b' ! TYPES_OF_PARTS A \<noteq> 0)"
    by simp
  have le: "TYPES_OF_PARTS B \<le> TYPES_OF_PARTS A"
    using lt by simp
  have oA: "isCorrectOrderForNewPart b' (TYPES_OF_PARTS A)"
    by (rule order_after_earlier [OF oB pp le le])
  from appendPart_ok [OF nA oA, of y] step show ?thesis by simp
qed

lemma repeat_no_duplicate:
  assumes "\<not> single_occurrence K"
  shows "fst (appendAll (map (Pair K) strs) b) \<noteq> Inl DuplicateFragmentError"
proof (induction strs arbitrary: b)
  case Nil
  show ?case by simp
next
  case (Cons s strs)
  show ?case
  proof (cases "isCorrectOrderForNewPart b (TYPES_OF_PARTS K)")
    case False
    then have "appendPart K s b = (Inl OutOfOrderError, b)"
      using assms by (intro appendPart_order_fail) simp_all
    then show ?thesis using errors_distinct by auto
  next
    case True
    then have "fst (appendPart K s b) = Inr ()"
      using assms by (simp add: appendPart_ok)
    then obtain b' where "appendPart K s b = (Inr (), b')"
      by (cases "appendPart K s b") simp
    then show ?thesis using Cons.IH [of b'] by simp
  qed
qed

lemma repeat_ok:
  assumes "\<not> single_occurrence K"
  shows "isCorrectOrderForNewPart b (TYPES_OF_PARTS K) \<Longrightarrow>
         fst (appendAll (map (Pair K) strs) b) = Inr ()
       \<and> line (snd (appendAll (map (Pair K) strs) b)) =
           line b @ concat (map (\<lambda>s. spec_fragment (K, s)) strs)"
proof (induction strs arbitrary: b)
  case Nil
  show ?case by simp
next
  case (Cons s strs)
  define b' where "b' = \<lparr>line = line b @ spec_fragment (K, s),
     partsPresence = (partsPresence b)[TYPES_OF_PARTS K := partsPresence b ! TYPES_OF_PARTS K + 1]\<rparr>"
  have step: "appendPart K s b = (Inr (), b')"
    unfolding b'_def using assms Cons.prems by (intro appendPart_ok) simp_all
  have pp: "partsPresence b' =
      (partsPresence b)[TYPES_OF_PARTS K := partsPresence b ! TYPES_OF_PARTS K + 1]"
    by (simp add: b'_def)
  have "isCorrectOrderForNewPart b' (TYPES_OF_PARTS K)"
    by (rule order_after_earlier [OF Cons.prems pp le_refl le_refl])
  from Cons.IH [OF this] step show ?case
    by (simp add: b'_def)
qed

lemma count_fragments:
  assumes "(K, c) = (CLASS, CHR ''.'') \<or> (K, c) = (ATTR, CHR ''['') \<or> (K, c) = (PSEUDO_CLASS, CHR '':'')"
  shows "count_list (concat (map (\<lambda>s. spec_fragment (K, s)) strs)) c =
           length strs + sum_list (map (\<lambda>s. count_list s c) strs)"
  using assms by (induction strs) auto

lemma sum_count_zero:
  "\<forall>s \<in> set strs. c \<notin> set s \<Longrightarrow> sum_list (map (\<lambda>s. count_list s c) strs) = 0"
  by (induction strs) (simp_all add: count_list_0_iff)


subsection \<open>Calls through references\<close>

lemma invoke_eq:
  "r < length h \<Longrightarrow> invoke r m h = (fst (m (h ! r)), h[r := snd (m (h ! r))])"
  by (simp add: invoke_def split: prod.splits)

lemma invoke_this_eq:
  "r < length h \<Longrightarrow>
   invoke_this r m h =
     (case fst (m (h ! r)) of Inl e \<Rightarrow> Inl e | Inr _ \<Rightarrow> Inr r, h[r := snd (m (h ! r))])"
  by (simp add: invoke_this_def invoke_eq split: sum.splits)

lemma new_MyBuilder_eq:
  "new_MyBuilder v K h =
     (Inr (length h),
      h @ [\<lparr>line = spec_fragment (K, v), partsPresence = (replicate 6 0)[TYPES_OF_PARTS K := 1]\<rparr>])"
  by (simp add: new_MyBuilder_def constructor_eq)

lemma combine_eq:
  assumes "l < length h" and "r < length h"
  shows "cssSelectorBuilder_combine l c r h =
     (Inr l, h[l := (h ! l)\<lparr>line := line (h ! l) @ '' '' @ c @ '' '' @ line (h ! r)\<rparr>])"
  using assms
  by (simp add: cssSelectorBuilder_combine_def invoke_eq invoke_this_eq stringify_def combineTail_def)


subsection \<open>The example objects\<close>

lemma example_class_a_eq:
  "example_class_a = \<lparr>line = ''.a'', partsPresence = [0, 0, 1, 0, 0, 0]\<rparr>"
  by (simp add: example_class_a_def constructor_eq eval_nat_numeral)

lemma example_a_b_eq:
  "example_a_b = \<lparr>line = ''a#b'', partsPresence = [1, 1, 0, 0, 0, 0]\<rparr>"
  by (simp add: example_a_b_def constructor_eq eval_nat_numeral id_m_def addNewPartInLine_def
        isCorrectOrderForNewPart_def)

lemma example_a_b_c_eq:
  "example_a_b_c = \<lparr>line = ''a#b::c'', partsPresence = [1, 1, 0, 0, 0, 1]\<rparr>"
  by (simp add: example_a_b_c_def constructor_eq eval_nat_numeral id_m_def pseudoElement_def
        addNewPartInLine_def isCorrectOrderForNewPart_def)

lemma example_div_eq:
  "example_div = \<lparr>line = ''div'', partsPresence = [1, 0, 0, 0, 0, 0]\<rparr>"
  by (simp add: example_div_def constructor_eq eval_nat_numeral)

section \<open>Facts about the JSON functions\<close>

























lemma skip_ws_Cons: "\<not> is_ws c \<Longrightarrow> skip_ws (c # r) = c # r"
  by (simp add: skip_ws_def)

lemma skip_ws_start: "value_start t \<Longrightarrow> skip_ws (t @ r) = t @ r"
  by (cases t) (simp_all add: value_start_def skip_ws_Cons)

























section \<open>The claims\<close>

text \<open>
  Claim C1, amended. Let kind \<open>A\<close> be strictly later than kind \<open>B\<close> in the order of
  \<^verbatim>\<open>TYPES_OF_PARTS\<close>. The order check passes exactly when no strictly later kind has a
  count other than 0. On a builder just constructed with kind \<open>A\<close>, the call for \<open>B\<close>
  throws the order error; on one just constructed with kind \<open>B\<close>, the call for \<open>A\<close>
  succeeds. On any builder, the calls for \<open>A\<close> then \<open>B\<close> end in the order error unless
  \<open>A\<close> or \<open>B\<close> is a once-only kind the builder already holds, and the calls for \<open>B\<close>
  then \<open>A\<close> succeed whenever the call for \<open>B\<close> does.
\<close>

theorem C1_order:
  assumes wf: "length (partsPresence b) = 6"
      and lt: "TYPES_OF_PARTS B < TYPES_OF_PARTS A"
  shows "(isCorrectOrderForNewPart b (TYPES_OF_PARTS K) \<longleftrightarrow>
            (\<forall>K'. TYPES_OF_PARTS K < TYPES_OF_PARTS K' \<longrightarrow> partsPresence b ! TYPES_OF_PARTS K' = 0))
       \<and> fst (constructor x A) = Inr ()
       \<and> fst (appendPart B y (snd (constructor x A))) = Inl OutOfOrderError
       \<and> fst (constructor x B) = Inr ()
       \<and> fst (appendPart A y (snd (constructor x B))) = Inr ()
       \<and> (\<not> (single_occurrence A \<and> partsPresence b ! TYPES_OF_PARTS A \<noteq> 0)
            \<and> \<not> (single_occurrence B \<and> partsPresence b ! TYPES_OF_PARTS B \<noteq> 0)
          \<longrightarrow> fst (appendAll [(A, x), (B, y)] b) = Inl OutOfOrderError)
       \<and> (fst (appendPart B x b) = Inr ()
          \<longrightarrow> fst (appendAll [(B, x), (A, y)] b) = Inr ())"
proof -
  let ?blank = "\<lparr>line = '''', partsPresence = replicate 6 0\<rparr>"
  have c1: "isCorrectOrderForNewPart b (TYPES_OF_PARTS K) \<longleftrightarrow>
            (\<forall>K'. TYPES_OF_PARTS K < TYPES_OF_PARTS K' \<longrightarrow> partsPresence b ! TYPES_OF_PARTS K' = 0)"
    using wf by (rule order_check_kinds)
  have c2: "fst (constructor x A) = Inr ()" and c4: "fst (constructor x B) = Inr ()"
    by (simp_all add: constructor_eq)
  have z: "\<And>k. replicate 6 (0::nat) ! TYPES_OF_PARTS k = 0"
    by (simp add: TYPES_OF_PARTS_less_6)
  have "fst (appendAll [(A, x), (B, y)] ?blank) = Inl OutOfOrderError"
    by (rule later_then_earlier [OF blank_wf lt]) (simp_all add: z)
  then have c3: "fst (appendPart B y (snd (constructor x A))) = Inl OutOfOrderError"
    using appendAll_two [OF c2 [unfolded constructor_appendPart], of B y]
    by (simp only: constructor_appendPart)
  have "fst (appendAll [(B, x), (A, y)] ?blank) = Inr ()"
    by (rule earlier_then_later [OF blank_wf lt c4 [unfolded constructor_appendPart]])
  then have c5: "fst (appendPart A y (snd (constructor x B))) = Inr ()"
    using appendAll_two [OF c4 [unfolded constructor_appendPart], of A y]
    by (simp only: constructor_appendPart)
  have c6: "\<not> (single_occurrence A \<and> partsPresence b ! TYPES_OF_PARTS A \<noteq> 0)
            \<and> \<not> (single_occurrence B \<and> partsPresence b ! TYPES_OF_PARTS B \<noteq> 0)
          \<longrightarrow> fst (appendAll [(A, x), (B, y)] b) = Inl OutOfOrderError"
    using later_then_earlier [OF wf lt] by simp
  have c7: "fst (appendPart B x b) = Inr () \<longrightarrow> fst (appendAll [(B, x), (A, y)] b) = Inr ()"
    using earlier_then_later [OF wf lt] by simp
  show ?thesis by (intro conjI c1 c2 c3 c4 c5 c6 c7)
qed

theorem C1_order_witness:
  "length (partsPresence example_class_a) = 6
   \<and> TYPES_OF_PARTS CLASS < TYPES_OF_PARTS ATTR
   \<and> fst (appendPart CLASS ''c'' (snd (constructor ''b'' ATTR))) = Inl OutOfOrderError
   \<and> fst (appendPart ATTR ''c'' (snd (constructor ''b'' CLASS))) = Inr ()
   \<and> \<not> (single_occurrence ATTR \<and> partsPresence example_class_a ! TYPES_OF_PARTS ATTR \<noteq> 0)
   \<and> \<not> (single_occurrence CLASS \<and> partsPresence example_class_a ! TYPES_OF_PARTS CLASS \<noteq> 0)
   \<and> fst (appendAll [(ATTR, ''b''), (CLASS, ''c'')] example_class_a) = Inl OutOfOrderError
   \<and> fst (appendPart CLASS ''b'' example_class_a) = Inr ()
   \<and> fst (appendAll [(CLASS, ''b''), (ATTR, ''c'')] example_class_a) = Inr ()"
proof -
  have h1: "length (partsPresence example_class_a) = 6" by (simp add: example_class_a_eq)
  have h2: "TYPES_OF_PARTS CLASS < TYPES_OF_PARTS ATTR" by simp
  have h3: "fst (appendPart CLASS ''b'' example_class_a) = Inr ()"
    by (simp add: example_class_a_eq class_m_def addNewPartInLine_def isCorrectOrderForNewPart_def)
  have n1: "\<not> (single_occurrence ATTR \<and> partsPresence example_class_a ! TYPES_OF_PARTS ATTR \<noteq> 0)"
    by simp
  have n2: "\<not> (single_occurrence CLASS \<and> partsPresence example_class_a ! TYPES_OF_PARTS CLASS \<noteq> 0)"
    by simp
  note t = C1_order [OF h1 h2, of CLASS "''b''" "''c''"]
  note t3 = t [THEN conjunct2, THEN conjunct2]
  note t5 = t3 [THEN conjunct2, THEN conjunct2]
  note t6 = t5 [THEN conjunct2]
  have r3: "fst (appendPart CLASS ''c'' (snd (constructor ''b'' ATTR))) = Inl OutOfOrderError"
    by (rule t3 [THEN conjunct1])
  have r5: "fst (appendPart ATTR ''c'' (snd (constructor ''b'' CLASS))) = Inr ()"
    by (rule t5 [THEN conjunct1])
  have r6: "fst (appendAll [(ATTR, ''b''), (CLASS, ''c'')] example_class_a) = Inl OutOfOrderError"
    by (rule t6 [THEN conjunct1, THEN mp, OF conjI [OF n1 n2]])
  have r7: "fst (appendAll [(CLASS, ''b''), (ATTR, ''c'')] example_class_a) = Inr ()"
    by (rule t6 [THEN conjunct2, THEN mp, OF h3])
  show ?thesis by (intro conjI h1 h2 h3 n1 n2 r3 r5 r6 r7)
qed

text \<open>
  The claim as stated, for every builder: on the builder of \<^verbatim>\<open>element('div')\<close>, the calls
  \<^verbatim>\<open>.id('x').element('y')\<close> (ID is later than ELEMENT) end in the duplicate error, not in
  the order error.
\<close>

theorem C1_order_counterexample:
  "TYPES_OF_PARTS ELEMENT < TYPES_OF_PARTS ID
   \<and> fst (constructor ''div'' ELEMENT) = Inr ()
   \<and> fst (appendAll [(ID, ''x''), (ELEMENT, ''y'')] (snd (constructor ''div'' ELEMENT)))
       = Inl DuplicateFragmentError
   \<and> DuplicateFragmentError \<noteq> OutOfOrderError"
  by (simp add: constructor_eq errors_distinct id_m_def element_def addNewPartInLine_def
        isCorrectOrderForNewPart_def Let_def eval_nat_numeral)

text \<open>
  Claim C2. A builder that already holds a fragment of kind ELEMENT, ID or
  PSEUDO_ELEMENT (its count for the kind is not 0) answers a further \<^verbatim>\<open>element\<close>,
  \<^verbatim>\<open>id\<close> or \<^verbatim>\<open>pseudoElement\<close> call with the duplicate error, and stays as it was.
  In particular the second call of the same kind on a builder just constructed with that
  kind throws it.
\<close>

theorem C2_duplicate:
  assumes "length (partsPresence b) = 6"
  shows "(partsPresence b ! TYPES_OF_PARTS ELEMENT \<noteq> 0 \<longrightarrow>
            element str b = (Inl DuplicateFragmentError, b))
       \<and> (partsPresence b ! TYPES_OF_PARTS ID \<noteq> 0 \<longrightarrow>
            id_m str b = (Inl DuplicateFragmentError, b))
       \<and> (partsPresence b ! TYPES_OF_PARTS PSEUDO_ELEMENT \<noteq> 0 \<longrightarrow>
            pseudoElement str b = (Inl DuplicateFragmentError, b))
       \<and> fst (constructor str0 ELEMENT) = Inr ()
       \<and> fst (element str (snd (constructor str0 ELEMENT))) = Inl DuplicateFragmentError
       \<and> fst (constructor str0 ID) = Inr ()
       \<and> fst (id_m str (snd (constructor str0 ID))) = Inl DuplicateFragmentError
       \<and> fst (constructor str0 PSEUDO_ELEMENT) = Inr ()
       \<and> fst (pseudoElement str (snd (constructor str0 PSEUDO_ELEMENT))) = Inl DuplicateFragmentError"
  by (simp add: element_def id_m_def pseudoElement_def constructor_def addNewPartInLine_def
        isCorrectOrderForNewPart_def Let_def eval_nat_numeral)

theorem C2_duplicate_witness:
  "length (partsPresence example_a_b_c) = 6
   \<and> partsPresence example_a_b_c ! TYPES_OF_PARTS ELEMENT \<noteq> 0
   \<and> element ''d'' example_a_b_c = (Inl DuplicateFragmentError, example_a_b_c)
   \<and> partsPresence example_a_b_c ! TYPES_OF_PARTS ID \<noteq> 0
   \<and> id_m ''d'' example_a_b_c = (Inl DuplicateFragmentError, example_a_b_c)
   \<and> partsPresence example_a_b_c ! TYPES_OF_PARTS PSEUDO_ELEMENT \<noteq> 0
   \<and> pseudoElement ''d'' example_a_b_c = (Inl DuplicateFragmentError, example_a_b_c)"
proof -
  have h: "length (partsPresence example_a_b_c) = 6
     \<and> partsPresence example_a_b_c ! TYPES_OF_PARTS ELEMENT \<noteq> 0
     \<and> partsPresence example_a_b_c ! TYPES_OF_PARTS ID \<noteq> 0
     \<and> partsPresence example_a_b_c ! TYPES_OF_PARTS PSEUDO_ELEMENT \<noteq> 0"
    by (simp add: example_a_b_c_eq)
  then have "length (partsPresence example_a_b_c) = 6" by simp
  from C2_duplicate [OF this, of "''d''" "''a''"] h show ?thesis by simp
qed

text \<open>
  Claim C3, amended. For the kinds CLASS, ATTR and PSEUDO_CLASS, with prefix characters
  \<^verbatim>\<open>.\<close>, \<^verbatim>\<open>[\<close> and \<^verbatim>\<open>:\<close>, and a non-empty list of texts: the calls of that kind in a
  row never end in the duplicate error. When the order check for the kind passes on the
  builder (it does on a builder just constructed with that kind), all calls succeed,
  \<^verbatim>\<open>stringify\<close> returns the former text followed by the fragments, and the prefix
  character occurs in it as often as in the former text, plus once for each call, plus its
  occurrences inside the texts given: exactly one more for each call when the texts do not
  contain the character.
\<close>

theorem C3_repeatable:
  assumes wf: "length (partsPresence b) = 6"
      and kc: "(K, c) = (CLASS, CHR ''.'') \<or> (K, c) = (ATTR, CHR ''['')
               \<or> (K, c) = (PSEUDO_CLASS, CHR '':'')"
      and ne: "strs \<noteq> []"
  shows "fst (appendAll (map (Pair K) strs) b) \<noteq> Inl DuplicateFragmentError
       \<and> (isCorrectOrderForNewPart b (TYPES_OF_PARTS K) \<longrightarrow>
            fst (appendAll (map (Pair K) strs) b) = Inr ()
          \<and> fst (stringify (snd (appendAll (map (Pair K) strs) b))) =
              Inr (line b @ concat (map (\<lambda>s. spec_fragment (K, s)) strs))
          \<and> count_list (line (snd (appendAll (map (Pair K) strs) b))) c =
              count_list (line b) c + length strs + sum_list (map (\<lambda>s. count_list s c) strs)
          \<and> ((\<forall>s \<in> set strs. c \<notin> set s) \<longrightarrow>
              count_list (line (snd (appendAll (map (Pair K) strs) b))) c =
                count_list (line b) c + length strs))
       \<and> fst (constructor s0 K) = Inr ()
       \<and> line (snd (constructor s0 K)) = spec_fragment (K, s0)
       \<and> isCorrectOrderForNewPart (snd (constructor s0 K)) (TYPES_OF_PARTS K)"
proof -
  from kc have ns: "\<not> single_occurrence K" by auto
  have c1: "fst (appendAll (map (Pair K) strs) b) \<noteq> Inl DuplicateFragmentError"
    using ns by (rule repeat_no_duplicate)
  have c2: "isCorrectOrderForNewPart b (TYPES_OF_PARTS K) \<longrightarrow>
            fst (appendAll (map (Pair K) strs) b) = Inr ()
          \<and> fst (stringify (snd (appendAll (map (Pair K) strs) b))) =
              Inr (line b @ concat (map (\<lambda>s. spec_fragment (K, s)) strs))
          \<and> count_list (line (snd (appendAll (map (Pair K) strs) b))) c =
              count_list (line b) c + length strs + sum_list (map (\<lambda>s. count_list s c) strs)
          \<and> ((\<forall>s \<in> set strs. c \<notin> set s) \<longrightarrow>
              count_list (line (snd (appendAll (map (Pair K) strs) b))) c =
                count_list (line b) c + length strs)"
  proof
    assume ok: "isCorrectOrderForNewPart b (TYPES_OF_PARTS K)"
    note r = repeat_ok [OF ns ok, of strs]
    have l: "line (snd (appendAll (map (Pair K) strs) b)) =
           line b @ concat (map (\<lambda>s. spec_fragment (K, s)) strs)"
      using r by simp
    have n: "count_list (line (snd (appendAll (map (Pair K) strs) b))) c =
              count_list (line b) c + length strs + sum_list (map (\<lambda>s. count_list s c) strs)"
      by (simp add: l count_fragments [OF kc])
    show "fst (appendAll (map (Pair K) strs) b) = Inr ()
          \<and> fst (stringify (snd (appendAll (map (Pair K) strs) b))) =
              Inr (line b @ concat (map (\<lambda>s. spec_fragment (K, s)) strs))
          \<and> count_list (line (snd (appendAll (map (Pair K) strs) b))) c =
              count_list (line b) c + length strs + sum_list (map (\<lambda>s. count_list s c) strs)
          \<and> ((\<forall>s \<in> set strs. c \<notin> set s) \<longrightarrow>
              count_list (line (snd (appendAll (map (Pair K) strs) b))) c =
                count_list (line b) c + length strs)"
      using r l n by (simp add: stringify_def sum_count_zero)
  qed
  have c3: "fst (constructor s0 K) = Inr ()"
    and c4: "line (snd (constructor s0 K)) = spec_fragment (K, s0)"
    by (simp_all add: constructor_eq)
  have c5: "isCorrectOrderForNewPart (snd (constructor s0 K)) (TYPES_OF_PARTS K)"
    by (simp add: constructor_eq order_check_iff)
  show ?thesis by (intro conjI c1 c2 c3 c4 c5)
qed

theorem C3_repeatable_witness:
  "length (partsPresence example_div) = 6
   \<and> [''a'', ''b''] \<noteq> []
   \<and> isCorrectOrderForNewPart example_div (TYPES_OF_PARTS CLASS)
   \<and> CHR ''.'' \<notin> set ''a'' \<and> CHR ''.'' \<notin> set ''b''
   \<and> fst (appendAll (map (Pair CLASS) [''a'', ''b'']) example_div) = Inr ()
   \<and> fst (stringify (snd (appendAll (map (Pair CLASS) [''a'', ''b'']) example_div))) = Inr ''div.a.b''
   \<and> count_list (line (snd (appendAll (map (Pair CLASS) [''a'', ''b'']) example_div))) (CHR ''.'') = 2"
proof -
  have h1: "length (partsPresence example_div) = 6"
    by (simp add: example_div_eq)
  have h2: "(CLASS, CHR ''.'') = (CLASS, CHR ''.'') \<or> (CLASS, CHR ''.'') = (ATTR, CHR ''['')
               \<or> (CLASS, CHR ''.'') = (PSEUDO_CLASS, CHR '':'')"
    by simp
  have h3: "[''a'', ''b''] \<noteq> []"
    by simp
  have h4: "isCorrectOrderForNewPart example_div (TYPES_OF_PARTS CLASS)"
    by (simp add: example_div_eq isCorrectOrderForNewPart_def)
  have h5: "\<forall>s \<in> set [''a'', ''b'']. CHR ''.'' \<notin> set s"
    by simp
  note t = C3_repeatable [OF h1 h2 h3, THEN conjunct2, THEN conjunct1, THEN mp, OF h4]
  have r1: "fst (appendAll (map (Pair CLASS) [''a'', ''b'']) example_div) = Inr ()"
    by (rule t [THEN conjunct1])
  have r2: "fst (stringify (snd (appendAll (map (Pair CLASS) [''a'', ''b'']) example_div))) = Inr ''div.a.b''"
    using t [THEN conjunct2, THEN conjunct1] by (simp add: example_div_eq)
  have r3: "count_list (line (snd (appendAll (map (Pair CLASS) [''a'', ''b'']) example_div))) (CHR ''.'') = 2"
    using t [THEN conjunct2, THEN conjunct2, THEN conjunct2, THEN mp, OF h5]
    by (simp add: example_div_eq)
  have h6: "CHR ''.'' \<notin> set ''a''" and h7: "CHR ''.'' \<notin> set ''b''"
    by simp_all
  show ?thesis by (intro conjI h1 h3 h4 h6 h7 r1 r2 r3)
qed

text \<open>
  The claim as stated, for every text: \<^verbatim>\<open>class('a.b')\<close> is one fragment and its text
  holds two dots; so does the text of \<^verbatim>\<open>element('div').class('a.b')\<close>.
\<close>

theorem C3_repeatable_counterexample:
  "fst (constructor ''a.b'' CLASS) = Inr ()
   \<and> fst (stringify (snd (constructor ''a.b'' CLASS))) = Inr ''.a.b''
   \<and> count_list ''.a.b'' (CHR ''.'') = 2
   \<and> fst (appendAll (map (Pair CLASS) [''a.b'']) (snd (constructor ''div'' ELEMENT))) = Inr ()
   \<and> fst (stringify (snd (appendAll (map (Pair CLASS) [''a.b'']) (snd (constructor ''div'' ELEMENT)))))
       = Inr ''div.a.b''
   \<and> count_list ''div.a.b'' (CHR ''.'') = 2
   \<and> length [''a.b''] = 1"
  by (simp add: constructor_eq stringify_def class_m_def addNewPartInLine_def
        isCorrectOrderForNewPart_def Let_def eval_nat_numeral)

text \<open>
  Claim C4. Each of the six facade functions allocates a new object, which is the empty
  builder after the part method of the matching kind: one fragment, one count of 1. After
  a chain of part calls that all succeed, \<^verbatim>\<open>stringify\<close> returns the former text followed
  by the fragments in call order, each rendered as the spec says; from a facade call on,
  that is the rendering of the whole chain. The chain
  \<^verbatim>\<open>id('main').class('container').class('editable').stringify()\<close> returns
  \<^verbatim>\<open>#main.container.editable\<close>.
\<close>

theorem C4_facade_and_rendering:
  "cssSelectorBuilder_element v h =
      (Inr (length h), h @ [snd (element v \<lparr>line = '''', partsPresence = replicate 6 0\<rparr>)])
   \<and> cssSelectorBuilder_id v h =
      (Inr (length h), h @ [snd (id_m v \<lparr>line = '''', partsPresence = replicate 6 0\<rparr>)])
   \<and> cssSelectorBuilder_class v h =
      (Inr (length h), h @ [snd (class_m v \<lparr>line = '''', partsPresence = replicate 6 0\<rparr>)])
   \<and> cssSelectorBuilder_attr v h =
      (Inr (length h), h @ [snd (attr v \<lparr>line = '''', partsPresence = replicate 6 0\<rparr>)])
   \<and> cssSelectorBuilder_pseudoClass v h =
      (Inr (length h), h @ [snd (pseudoClass v \<lparr>line = '''', partsPresence = replicate 6 0\<rparr>)])
   \<and> cssSelectorBuilder_pseudoElement v h =
      (Inr (length h), h @ [snd (pseudoElement v \<lparr>line = '''', partsPresence = replicate 6 0\<rparr>)])
   \<and> appendPart K v \<lparr>line = '''', partsPresence = replicate 6 0\<rparr> =
      (Inr (), \<lparr>line = spec_fragment (K, v), partsPresence = (replicate 6 0)[TYPES_OF_PARTS K := 1]\<rparr>)
   \<and> (fst (appendAll parts b) = Inr () \<longrightarrow>
        fst (stringify (snd (appendAll parts b))) = Inr (line b @ concat (map spec_fragment parts)))
   \<and> (fst (appendAll parts (snd (constructor v K))) = Inr () \<longrightarrow>
        fst (stringify (snd (appendAll parts (snd (constructor v K))))) =
          Inr (concat (map spec_fragment ((K, v) # parts))))
   \<and> fst (chain (chain (chain (cssSelectorBuilder_id ''main'' h)
              (\<lambda>r. invoke_this r (class_m ''container'')))
              (\<lambda>r. invoke_this r (class_m ''editable'')))
              (\<lambda>r. invoke r stringify))
       = Inr ''#main.container.editable''"
proof -
  let ?blank = "\<lparr>line = '''', partsPresence = replicate 6 0\<rparr>"
  have a: "appendPart K v ?blank =
      (Inr (), \<lparr>line = spec_fragment (K, v), partsPresence = (replicate 6 0)[TYPES_OF_PARTS K := 1]\<rparr>)"
    for K
    using constructor_eq [of v K] by (simp only: constructor_appendPart)
  have f1: "cssSelectorBuilder_element v h = (Inr (length h), h @ [snd (element v ?blank)])"
    using a [of ELEMENT] by (simp add: cssSelectorBuilder_element_def new_MyBuilder_eq)
  have f2: "cssSelectorBuilder_id v h = (Inr (length h), h @ [snd (id_m v ?blank)])"
    using a [of ID] by (simp add: cssSelectorBuilder_id_def new_MyBuilder_eq)
  have f3: "cssSelectorBuilder_class v h = (Inr (length h), h @ [snd (class_m v ?blank)])"
    using a [of CLASS] by (simp add: cssSelectorBuilder_class_def new_MyBuilder_eq)
  have f4: "cssSelectorBuilder_attr v h = (Inr (length h), h @ [snd (attr v ?blank)])"
    using a [of ATTR] by (simp add: cssSelectorBuilder_attr_def new_MyBuilder_eq)
  have f5: "cssSelectorBuilder_pseudoClass v h = (Inr (length h), h @ [snd (pseudoClass v ?blank)])"
    using a [of PSEUDO_CLASS] by (simp add: cssSelectorBuilder_pseudoClass_def new_MyBuilder_eq)
  have f6: "cssSelectorBuilder_pseudoElement v h = (Inr (length h), h @ [snd (pseudoElement v ?blank)])"
    using a [of PSEUDO_ELEMENT] by (simp add: cssSelectorBuilder_pseudoElement_def new_MyBuilder_eq)
  have g: "fst (appendAll parts b) = Inr () \<longrightarrow>
        fst (stringify (snd (appendAll parts b))) = Inr (line b @ concat (map spec_fragment parts))"
    for b
    by (simp add: stringify_def appendAll_line)
  have g': "fst (appendAll parts (snd (constructor v K))) = Inr () \<longrightarrow>
        fst (stringify (snd (appendAll parts (snd (constructor v K))))) =
          Inr (concat (map spec_fragment ((K, v) # parts)))"
    using g [of "snd (constructor v K)"] by (simp add: constructor_eq)
  have ex: "fst (chain (chain (chain (cssSelectorBuilder_id ''main'' h)
              (\<lambda>r. invoke_this r (class_m ''container'')))
              (\<lambda>r. invoke_this r (class_m ''editable'')))
              (\<lambda>r. invoke r stringify))
       = Inr ''#main.container.editable''"
    by (simp add: cssSelectorBuilder_id_def new_MyBuilder_eq invoke_this_eq invoke_eq
          class_m_def addNewPartInLine_def isCorrectOrderForNewPart_def Let_def stringify_def
          eval_nat_numeral)
  show ?thesis by (intro conjI f1 f2 f3 f4 f5 f6 a g g' ex)
qed

theorem C4_facade_and_rendering_witness:
  "fst (appendAll [(CLASS, ''container''), (CLASS, ''editable'')] (snd (constructor ''main'' ID))) = Inr ()
   \<and> fst (stringify (snd (appendAll [(CLASS, ''container''), (CLASS, ''editable'')]
         (snd (constructor ''main'' ID))))) = Inr ''#main.container.editable''"
proof -
  have h: "fst (appendAll [(CLASS, ''container''), (CLASS, ''editable'')] (snd (constructor ''main'' ID))) = Inr ()"
    by (simp add: constructor_eq class_m_def addNewPartInLine_def isCorrectOrderForNewPart_def
          Let_def eval_nat_numeral)
  from C4_facade_and_rendering [of "''main''" "[]" ID
         "[(CLASS, ''container''), (CLASS, ''editable'')]" "snd (constructor ''main'' ID)"]
  have "fst (appendAll [(CLASS, ''container''), (CLASS, ''editable'')] (snd (constructor ''main'' ID))) = Inr () \<longrightarrow>
        fst (stringify (snd (appendAll [(CLASS, ''container''), (CLASS, ''editable'')] (snd (constructor ''main'' ID))))) =
          Inr (concat (map spec_fragment ((ID, ''main'') # [(CLASS, ''container''), (CLASS, ''editable'')])))"
    by (elim conjE)
  with h show ?thesis by simp
qed

text \<open>
  Claim C5. For two references to builders, \<^verbatim>\<open>combine\<close> returns the first reference and
  changes the heap at that reference only: the line of the first builder gets a space, the
  combinator, a space and the text \<^verbatim>\<open>stringify\<close> returns for the second builder. With
  a space as combinator the joint is three spaces. The scenario of the spec returns
  \<^verbatim>\<open>div#main + table#data\<close>.
\<close>

theorem C5_combine:
  assumes "l < length h" and "r < length h"
  shows "cssSelectorBuilder_combine l c r h =
           (Inr l, h[l := (h ! l)\<lparr>line := line (h ! l) @ '' '' @ c @ '' '' @ line (h ! r)\<rparr>])
       \<and> fst (invoke r stringify h) = Inr (line (h ! r))
       \<and> fst (invoke l stringify (snd (cssSelectorBuilder_combine l c r h))) =
           Inr (line (h ! l) @ '' '' @ c @ '' '' @ line (h ! r))
       \<and> fst (invoke l stringify (snd (cssSelectorBuilder_combine l '' '' r h))) =
           Inr (line (h ! l) @ ''   '' @ line (h ! r))
       \<and> fst (chain (chain (cssSelectorBuilder_element ''div'' h) (\<lambda>a. invoke_this a (id_m ''main'')))
            (\<lambda>a h1. chain (chain (cssSelectorBuilder_element ''table'' h1)
                               (\<lambda>b. invoke_this b (id_m ''data'')))
               (\<lambda>b h2. chain (cssSelectorBuilder_combine a ''+'' b h2) (\<lambda>res. invoke res stringify))))
         = Inr ''div#main + table#data''"
proof -
  have c1: "cssSelectorBuilder_combine l c r h =
           (Inr l, h[l := (h ! l)\<lparr>line := line (h ! l) @ '' '' @ c @ '' '' @ line (h ! r)\<rparr>])"
    for c
    using assms by (rule combine_eq)
  have c2: "fst (invoke r stringify h) = Inr (line (h ! r))"
    using assms by (simp add: invoke_eq stringify_def)
  have c3: "fst (invoke l stringify (snd (cssSelectorBuilder_combine l c r h))) =
           Inr (line (h ! l) @ '' '' @ c @ '' '' @ line (h ! r))"
    for c
    using assms by (simp add: c1 invoke_eq stringify_def)
  have c4: "fst (invoke l stringify (snd (cssSelectorBuilder_combine l '' '' r h))) =
           Inr (line (h ! l) @ ''   '' @ line (h ! r))"
    using c3 [of "'' ''"] by simp
  have c5: "fst (chain (chain (cssSelectorBuilder_element ''div'' h) (\<lambda>a. invoke_this a (id_m ''main'')))
            (\<lambda>a h1. chain (chain (cssSelectorBuilder_element ''table'' h1)
                               (\<lambda>b. invoke_this b (id_m ''data'')))
               (\<lambda>b h2. chain (cssSelectorBuilder_combine a ''+'' b h2) (\<lambda>res. invoke res stringify))))
         = Inr ''div#main + table#data''"
    by (simp add: cssSelectorBuilder_element_def new_MyBuilder_eq invoke_this_eq invoke_eq
          combine_eq id_m_def addNewPartInLine_def isCorrectOrderForNewPart_def Let_def
          stringify_def eval_nat_numeral nth_append)
  show ?thesis by (intro conjI c1 c2 c3 c4 c5)
qed

theorem C5_combine_witness:
  "(0::nat) < length [example_div, example_class_a]
   \<and> (1::nat) < length [example_div, example_class_a]
   \<and> cssSelectorBuilder_combine 0 ''>'' 1 [example_div, example_class_a] =
       (Inr 0, [\<lparr>line = ''div > .a'', partsPresence = [1, 0, 0, 0, 0, 0]\<rparr>, example_class_a])"
proof -
  have h1: "(0::nat) < length [example_div, example_class_a]"
    and h2: "(1::nat) < length [example_div, example_class_a]"
    by simp_all
  from C5_combine [OF h1 h2, of "''>''", THEN conjunct1] h1 h2 show ?thesis
    by (simp add: example_div_eq example_class_a_eq)
qed

text \<open>
  Claim C6. \<^verbatim>\<open>stringify\<close> returns the line and never an error, and leaves the object
  (and, called through a reference, the whole heap) as it was: a second call returns the
  same, and a part call or \<^verbatim>\<open>combineTail\<close> after it does what it does without it.
\<close>

theorem C6_stringify:
  "stringify b = (Inr (line b), b)
   \<and> stringify (snd (stringify b)) = stringify b
   \<and> appendPart K s (snd (stringify b)) = appendPart K s b
   \<and> combineTail c t (snd (stringify b)) = combineTail c t b
   \<and> (r < length h \<longrightarrow>
        invoke r stringify h = (Inr (line (h ! r)), h)
      \<and> invoke r stringify (snd (invoke r stringify h)) = invoke r stringify h
      \<and> invoke_this r (appendPart K s) (snd (invoke r stringify h)) = invoke_this r (appendPart K s) h)"
  by (simp add: stringify_def invoke_eq)

theorem C6_stringify_witness:
  "(0::nat) < length [example_div]
   \<and> invoke 0 stringify [example_div] = (Inr ''div'', [example_div])
   \<and> invoke 0 stringify (snd (invoke 0 stringify [example_div])) = invoke 0 stringify [example_div]
   \<and> invoke_this 0 (appendPart CLASS ''a'') (snd (invoke 0 stringify [example_div]))
       = invoke_this 0 (appendPart CLASS ''a'') [example_div]"
proof -
  have h: "(0::nat) < length [example_div]" by simp
  from C6_stringify [of example_div CLASS "''a''" "''+''" "''x''" 0 "[example_div]"] h
  show ?thesis by (simp add: example_div_eq)
qed

text \<open>
  Claim C7, amended. \<^verbatim>\<open>combine\<close> keeps the number of objects and the counts of the
  first builder, so every part call on it afterwards has the outcome, and leaves the
  counts, it would have had before; every object other than the first builder is
  unchanged, and so is the second builder when it is not the first one.
\<close>

theorem C7_combine_frame:
  assumes "l < length h" and "r < length h"
  shows "length (snd (cssSelectorBuilder_combine l c r h)) = length h
       \<and> partsPresence (snd (cssSelectorBuilder_combine l c r h) ! l) = partsPresence (h ! l)
       \<and> fst (appendPart K s (snd (cssSelectorBuilder_combine l c r h) ! l)) = fst (appendPart K s (h ! l))
       \<and> partsPresence (snd (appendPart K s (snd (cssSelectorBuilder_combine l c r h) ! l)))
           = partsPresence (snd (appendPart K s (h ! l)))
       \<and> (r \<noteq> l \<longrightarrow> snd (cssSelectorBuilder_combine l c r h) ! r = h ! r)
       \<and> (\<forall>j. j \<noteq> l \<longrightarrow> snd (cssSelectorBuilder_combine l c r h) ! j = h ! j)"
proof -
  have pp: "partsPresence (snd (cssSelectorBuilder_combine l c r h) ! l) = partsPresence (h ! l)"
    using assms by (simp add: combine_eq)
  from appendPart_depends_on_counts [OF pp] pp assms show ?thesis
    by (simp add: combine_eq)
qed

theorem C7_combine_frame_witness:
  "(0::nat) < length [example_div, example_class_a]
   \<and> (1::nat) < length [example_div, example_class_a]
   \<and> (1::nat) \<noteq> 0
   \<and> partsPresence (snd (cssSelectorBuilder_combine 0 ''>'' 1 [example_div, example_class_a]) ! 0)
       = partsPresence example_div
   \<and> fst (appendPart ELEMENT ''p'' (snd (cssSelectorBuilder_combine 0 ''>'' 1 [example_div, example_class_a]) ! 0))
       = Inl DuplicateFragmentError
   \<and> snd (cssSelectorBuilder_combine 0 ''>'' 1 [example_div, example_class_a]) ! 1 = example_class_a"
proof -
  have h1: "(0::nat) < length [example_div, example_class_a]"
    and h2: "(1::nat) < length [example_div, example_class_a]"
    by simp_all
  have e: "fst (appendPart ELEMENT ''p'' example_div) = Inl DuplicateFragmentError"
    by (simp add: example_div_eq element_def)
  from C7_combine_frame [OF h1 h2, of "''>''" ELEMENT "''p''"] h1 h2 e show ?thesis
    by simp
qed

text \<open>
  The claim as stated, for every pair of builders: with the same builder as both
  operands, \<^verbatim>\<open>combine(b, '+', b)\<close> changes the text of the right operand from
  \<^verbatim>\<open>a\<close> to \<^verbatim>\<open>a + a\<close>.
\<close>

theorem C7_combine_frame_counterexample:
  "fst (cssSelectorBuilder_element ''a'' []) = Inr 0
   \<and> line (snd (cssSelectorBuilder_element ''a'' []) ! 0) = ''a''
   \<and> fst (cssSelectorBuilder_combine 0 ''+'' 0 (snd (cssSelectorBuilder_element ''a'' []))) = Inr 0
   \<and> line (snd (cssSelectorBuilder_combine 0 ''+'' 0 (snd (cssSelectorBuilder_element ''a'' []))) ! 0)
       = ''a + a''"
  by (simp add: cssSelectorBuilder_element_def new_MyBuilder_eq combine_eq)




text \<open>
  Claim C9. A part method that throws leaves the object as it was before the call: the
  line and the six counts are those of before, and the error is one of the two. The same
  holds of the whole heap when the method is called through a reference.
\<close>

theorem C9_error_atomicity:
  "(\<forall>e. fst (appendPart K str b) = Inl e \<longrightarrow>
       snd (appendPart K str b) = b \<and> (e = DuplicateFragmentError \<or> e = OutOfOrderError))
   \<and> (\<forall>e. r < length h \<and> fst (invoke_this r (appendPart K str) h) = Inl e \<longrightarrow>
       snd (invoke_this r (appendPart K str) h) = h)"
proof (rule conjI; intro allI impI)
  fix e assume "fst (appendPart K str b) = Inl e"
  then show "snd (appendPart K str b) = b \<and> (e = DuplicateFragmentError \<or> e = OutOfOrderError)"
    by (rule appendPart_error)
next
  fix e assume a: "r < length h \<and> fst (invoke_this r (appendPart K str) h) = Inl e"
  then have r: "r < length h" and f: "fst (invoke_this r (appendPart K str) h) = Inl e"
    by simp_all
  from r f obtain e' where "fst (appendPart K str (h ! r)) = Inl e'"
    by (cases "fst (appendPart K str (h ! r))") (simp_all add: invoke_this_eq)
  then have "snd (appendPart K str (h ! r)) = h ! r"
    using appendPart_error by blast
  with r show "snd (invoke_this r (appendPart K str) h) = h"
    by (simp add: invoke_this_eq)
qed

theorem C9_error_atomicity_witness:
  "fst (appendPart ID ''b'' example_class_a) = Inl OutOfOrderError
   \<and> snd (appendPart ID ''b'' example_class_a) = example_class_a
   \<and> (0::nat) < length [example_class_a]
   \<and> fst (invoke_this 0 (appendPart ID ''b'') [example_class_a]) = Inl OutOfOrderError
   \<and> snd (invoke_this 0 (appendPart ID ''b'') [example_class_a]) = [example_class_a]"
proof -
  have h1: "fst (appendPart ID ''b'' example_class_a) = Inl OutOfOrderError"
    by (simp add: example_class_a_eq id_m_def addNewPartInLine_def isCorrectOrderForNewPart_def)
  have h2: "fst (invoke_this 0 (appendPart ID ''b'') [example_class_a]) = Inl OutOfOrderError"
    using h1 by (simp add: invoke_this_eq)
  from C9_error_atomicity [of ID "''b''" example_class_a 0 "[example_class_a]"] h1 h2
  show ?thesis by simp
qed

text \<open>
  Claim C10. When the kind of an \<^verbatim>\<open>element\<close>, \<^verbatim>\<open>id\<close> or \<^verbatim>\<open>pseudoElement\<close> call is
  already present and a strictly later kind is present too, the call throws the duplicate
  error, which is not the order error, although \<^verbatim>\<open>addNewPartInLine\<close> alone would
  throw the order error on the same object.
\<close>

theorem C10_error_precedence:
  assumes "length (partsPresence b) = 6"
      and "K = ELEMENT \<or> K = ID \<or> K = PSEUDO_ELEMENT"
      and "partsPresence b ! TYPES_OF_PARTS K \<noteq> 0"
      and "\<exists>K'. TYPES_OF_PARTS K < TYPES_OF_PARTS K' \<and> partsPresence b ! TYPES_OF_PARTS K' \<noteq> 0"
  shows "appendPart K str b = (Inl DuplicateFragmentError, b)
       \<and> DuplicateFragmentError \<noteq> OutOfOrderError
       \<and> addNewPartInLine str K b = (Inl OutOfOrderError, b)"
proof -
  from assms(1,4) have "\<not> isCorrectOrderForNewPart b (TYPES_OF_PARTS K)"
    by (simp add: order_check_kinds)
  then have "addNewPartInLine str K b = (Inl OutOfOrderError, b)"
    by (rule addNewPartInLine_fail)
  moreover from assms(2,3) have "appendPart K str b = (Inl DuplicateFragmentError, b)"
    by (auto simp: appendPart_cases)
  ultimately show ?thesis using errors_distinct by simp
qed

theorem C10_error_precedence_witness:
  "length (partsPresence example_a_b) = 6
   \<and> partsPresence example_a_b ! TYPES_OF_PARTS ELEMENT \<noteq> 0
   \<and> TYPES_OF_PARTS ELEMENT < TYPES_OF_PARTS ID
   \<and> partsPresence example_a_b ! TYPES_OF_PARTS ID \<noteq> 0
   \<and> appendPart ELEMENT ''c'' example_a_b = (Inl DuplicateFragmentError, example_a_b)
   \<and> addNewPartInLine ''c'' ELEMENT example_a_b = (Inl OutOfOrderError, example_a_b)"
proof -
  have h1: "length (partsPresence example_a_b) = 6" by (simp add: example_a_b_eq)
  have h2: "partsPresence example_a_b ! TYPES_OF_PARTS ELEMENT \<noteq> 0" by (simp add: example_a_b_eq)
  have h3: "TYPES_OF_PARTS ELEMENT < TYPES_OF_PARTS ID \<and> partsPresence example_a_b ! TYPES_OF_PARTS ID \<noteq> 0"
    by (simp add: example_a_b_eq)
  then have h4: "\<exists>K'. TYPES_OF_PARTS ELEMENT < TYPES_OF_PARTS K' \<and> partsPresence example_a_b ! TYPES_OF_PARTS K' \<noteq> 0"
    by (rule exI)
  from C10_error_precedence [OF h1 _ h2 h4, of "''c''"] h1 h2 h3
  show ?thesis by simp
qed

end
